theory Spec2Isabelle
  imports Complex_Main "HOL-Library.Multiset"
begin

section \<open>Python exceptions\<close>

text \<open>
  Every exception the two modules raise, or let escape from the decimal library, is a value.
  \<open>InvalidOperation\<close> and \<open>Overflow\<close> are the two signals of the decimal module
  that the default context traps and that the operations used here can raise.
\<close>

datatype error =
    ValueError
  | TypeError
  | IndexError
  | InvalidAmountError
  | InsufficientFundsError
  | ArrayError
  | InvalidOperation
  | Overflow

section \<open>decimal.Decimal under the default context\<close>

text \<open>
  \<open>OOP/P09_BankAccount.py\<close> keeps every amount as a \<open>decimal.Decimal\<close> and never
  changes the context, so arithmetic runs under the default one: precision 28, rounding
  ROUND_HALF_EVEN, Emax 999999, Emin -999999, clamp 0, traps InvalidOperation,
  DivisionByZero and Overflow.

  A finite decimal \<open>Fin c e\<close> is the number \<open>c * 10 ^ e\<close> (signed coefficient, exponent);
  the sign of a zero is not kept, since the program only compares and adds. The constructor
  \<open>Decimal(str(x))\<close> is exact: it keeps every digit of the literal, whatever the context.
\<close>

datatype decimal = Fin int int | PInf | NInf | NaN | SNaN

definition prec :: int where "prec = 28"
definition Emax :: int where "Emax = 999999"
definition Emin :: int where "Emin = - 999999"
definition Etiny :: int where "Etiny = Emin - prec + 1"
definition Etop :: int where "Etop = Emax - prec + 1"

text \<open>The number of digits of a coefficient, \<open>len(self._int)\<close>.\<close>

fun ndigits :: "nat \<Rightarrow> nat" where
  "ndigits n = (if n < 10 then 1 else Suc (ndigits (n div 10)))"

declare ndigits.simps [simp del]

text \<open>Dropping the last \<open>k\<close> digits of a coefficient, ties to the even neighbour.\<close>

definition round_half_even :: "nat \<Rightarrow> nat \<Rightarrow> nat" where
  "round_half_even c k =
     (let q = c div 10 ^ k; r = c mod 10 ^ k
      in if 10 ^ k < 2 * r \<or> (2 * r = 10 ^ k \<and> odd q) then q + 1 else q)"

text \<open>
  \<open>Decimal._fix\<close>: the result of an operation is brought into the context. A zero keeps
  its exponent within \<open>[Etiny, Emax]\<close>; a coefficient of more than \<open>prec\<close> digits (or an
  exponent below \<open>Etiny\<close>) is rounded; an adjusted exponent above \<open>Emax\<close> raises Overflow.
\<close>

definition dec_fix :: "int \<Rightarrow> int \<Rightarrow> error + decimal" where
  "dec_fix c e =
     (if c = 0 then Inr (Fin 0 (min (max e Etiny) Emax))
      else
        let exp_min0 = int (ndigits (nat \<bar>c\<bar>)) + e - prec
        in if Etop < exp_min0 then Inl Overflow
           else
             let exp_min = max exp_min0 Etiny
             in if e < exp_min then
                  let q = round_half_even (nat \<bar>c\<bar>) (nat (exp_min - e));
                      q' = (if 10 ^ nat prec \<le> q then q div 10 else q);
                      exp' = (if 10 ^ nat prec \<le> q then exp_min + 1 else exp_min)
                  in if Etop < exp' then Inl Overflow
                     else Inr (Fin (sgn c * int q') exp')
                else Inr (Fin c e))"

text \<open>
  \<open>Decimal.__add__\<close>: a signalling NaN raises, a quiet NaN propagates, opposite infinities
  raise, and two finite operands are added exactly at the smaller exponent and then fixed.
\<close>

fun dec_add :: "decimal \<Rightarrow> decimal \<Rightarrow> error + decimal" where
  "dec_add SNaN _ = Inl InvalidOperation"
| "dec_add _ SNaN = Inl InvalidOperation"
| "dec_add NaN _ = Inr NaN"
| "dec_add _ NaN = Inr NaN"
| "dec_add PInf NInf = Inl InvalidOperation"
| "dec_add NInf PInf = Inl InvalidOperation"
| "dec_add PInf _ = Inr PInf"
| "dec_add NInf _ = Inr NInf"
| "dec_add _ PInf = Inr PInf"
| "dec_add _ NInf = Inr NInf"
| "dec_add (Fin c1 e1) (Fin c2 e2) =
     (let e = min e1 e2
      in dec_fix (c1 * 10 ^ nat (e1 - e) + c2 * 10 ^ nat (e2 - e)) e)"

fun copy_negate :: "decimal \<Rightarrow> decimal" where
  "copy_negate (Fin c e) = Fin (- c) e"
| "copy_negate PInf = NInf"
| "copy_negate NInf = PInf"
| "copy_negate NaN = NaN"
| "copy_negate SNaN = SNaN"

text \<open>\<open>Decimal.__sub__\<close> adds the negated operand.\<close>

definition dec_sub :: "decimal \<Rightarrow> decimal \<Rightarrow> error + decimal" where
  "dec_sub a b = dec_add a (copy_negate b)"

fun is_nan :: "decimal \<Rightarrow> bool" where
  "is_nan NaN = True"
| "is_nan SNaN = True"
| "is_nan _ = False"

text \<open>The exact numeric order of \<open>Decimal._cmp\<close> on operands that are not NaN.\<close>

fun num_less :: "decimal \<Rightarrow> decimal \<Rightarrow> bool" where
  "num_less (Fin c1 e1) (Fin c2 e2) =
     (let e = min e1 e2 in c1 * 10 ^ nat (e1 - e) < c2 * 10 ^ nat (e2 - e))"
| "num_less NInf d = (d \<noteq> NInf)"
| "num_less d PInf = (d \<noteq> PInf)"
| "num_less _ _ = False"

text \<open>
  The ordering operators \<open><\<close>, \<open><=\<close> and \<open>></\<close> raise InvalidOperation on a NaN operand
  (the signal is trapped) and compare exactly otherwise.
\<close>

definition dec_lt :: "decimal \<Rightarrow> decimal \<Rightarrow> error + bool" where
  "dec_lt a b = (if is_nan a \<or> is_nan b then Inl InvalidOperation else Inr (num_less a b))"

definition dec_le :: "decimal \<Rightarrow> decimal \<Rightarrow> error + bool" where
  "dec_le a b = (if is_nan a \<or> is_nan b then Inl InvalidOperation else Inr (\<not> num_less b a))"

definition dec_gt :: "decimal \<Rightarrow> decimal \<Rightarrow> error + bool" where
  "dec_gt a b = (if is_nan a \<or> is_nan b then Inl InvalidOperation else Inr (num_less b a))"

text \<open>The rational number a finite decimal denotes; \<open>==\<close> on decimals compares these.\<close>

fun dec_val :: "decimal \<Rightarrow> rat" where
  "dec_val (Fin c e) = of_int c * 10 powi e"
| "dec_val _ = 0"

text \<open>\<open>balance >= 0\<close>: true of a finite decimal with a coefficient that is not negative, and of Infinity.\<close>

fun dec_nonneg :: "decimal \<Rightarrow> bool" where
  "dec_nonneg (Fin c e) = (0 \<le> c)"
| "dec_nonneg PInf = True"
| "dec_nonneg _ = False"

section \<open>BankAccount\<close>

text \<open>
  An amount reaches every method as \<open>Decimal(str(amount))\<close>, inside a \<open>try\<close> that turns
  InvalidOperation and TypeError into InvalidAmountError. \<open>Num d\<close> is an argument whose
  conversion gives the decimal \<open>d\<close>; \<open>Invalid\<close> is one whose conversion raises.
\<close>

datatype amount = Num decimal | Invalid

record account =
  name :: string
  balance :: decimal
  account_number :: int

text \<open>
  A method returns what the Python method returns or raises, together with the object after
  the call: every mutation, also one made before a failure, shows in the second component.
\<close>

definition deposit :: "account \<Rightarrow> amount \<Rightarrow> (error + decimal) \<times> account" where
  "deposit self amount =
     (case amount of
        Invalid \<Rightarrow> (Inl InvalidAmountError, self)
      | Num deposit_amount \<Rightarrow>
          (case dec_le deposit_amount (Fin 0 0) of
             Inl _ \<Rightarrow> (Inl InvalidAmountError, self)
           | Inr True \<Rightarrow> (Inl InvalidAmountError, self)
           | Inr False \<Rightarrow>
               (case dec_add (balance self) deposit_amount of
                  Inl err \<Rightarrow> (Inl err, self)
                | Inr b \<Rightarrow> (Inr b, self\<lparr>balance := b\<rparr>))))"

definition withdraw :: "account \<Rightarrow> amount \<Rightarrow> (error + decimal) \<times> account" where
  "withdraw self amount =
     (case amount of
        Invalid \<Rightarrow> (Inl InvalidAmountError, self)
      | Num withdrawal_amount \<Rightarrow>
          (case dec_le withdrawal_amount (Fin 0 0) of
             Inl _ \<Rightarrow> (Inl InvalidAmountError, self)
           | Inr True \<Rightarrow> (Inl InvalidAmountError, self)
           | Inr False \<Rightarrow>
               (case dec_gt withdrawal_amount (balance self) of
                  Inl err \<Rightarrow> (Inl err, self)
                | Inr True \<Rightarrow> (Inl InsufficientFundsError, self)
                | Inr False \<Rightarrow>
                    (case dec_sub (balance self) withdrawal_amount of
                       Inl err \<Rightarrow> (Inl err, self)
                     | Inr b \<Rightarrow> (Inr b, self\<lparr>balance := b\<rparr>)))))"

text \<open>
  \<open>__init__\<close>. The class attribute \<open>_next_account_number\<close> is threaded through: the
  constructor takes its value and returns the new one. \<open>Str s\<close> is a name argument that is
  a \<open>str\<close>, \<open>NotStr\<close> any other object. A character of the model is a code point below 256; among
  these \<open>str.strip\<close> removes the white space 9 to 13, 28 to 32, 133 and 160.
\<close>

datatype name_arg = Str string | NotStr

definition is_space :: "char \<Rightarrow> bool" where
  "is_space ch =
     (let n = (of_char ch :: nat)
      in (9 \<le> n \<and> n \<le> 13) \<or> (28 \<le> n \<and> n \<le> 32) \<or> n = 133 \<or> n = 160)"

definition strip :: "string \<Rightarrow> string" where
  "strip s = rev (dropWhile is_space (rev (dropWhile is_space s)))"

definition BankAccount_init :: "int \<Rightarrow> name_arg \<Rightarrow> amount \<Rightarrow> (error + account) \<times> int" where
  "BankAccount_init next_number name_a initial_balance =
     (case name_a of
        NotStr \<Rightarrow> (Inl ValueError, next_number)
      | Str s \<Rightarrow>
          if strip s = [] then (Inl ValueError, next_number)
          else
            (case initial_balance of
               Invalid \<Rightarrow> (Inl InvalidAmountError, next_number)
             | Num balance_decimal \<Rightarrow>
                 (case dec_lt balance_decimal (Fin 0 0) of
                    Inl _ \<Rightarrow> (Inl InvalidAmountError, next_number)
                  | Inr True \<Rightarrow> (Inl ValueError, next_number)
                  | Inr False \<Rightarrow>
                      (Inr \<lparr>name = strip s, balance = balance_decimal,
                            account_number = next_number\<rparr>,
                       next_number + 1))))"

text \<open>
  \<open>transfer_to\<close> works on two objects that may be the same one, so it is modelled on the
  store of account objects: a list, a reference being a position in it. \<open>Account r\<close> is a
  destination that is a BankAccount, \<open>NotAccount\<close> any other object.
\<close>

datatype target = Account nat | NotAccount

definition transfer_to ::
  "account list \<Rightarrow> nat \<Rightarrow> target \<Rightarrow> amount \<Rightarrow> (error + decimal \<times> decimal) \<times> account list" where
  "transfer_to objs self other_account amount =
     (case other_account of
        NotAccount \<Rightarrow> (Inl TypeError, objs)
      | Account other \<Rightarrow>
          (case withdraw (objs ! self) amount of
             (Inl err, a) \<Rightarrow> (Inl err, objs[self := a])
           | (Inr _, a) \<Rightarrow>
               let objs1 = objs[self := a]
               in (case deposit (objs1 ! other) amount of
                     (Inl err, b) \<Rightarrow> (Inl err, objs1[other := b])
                   | (Inr _, b) \<Rightarrow>
                       let objs2 = objs1[other := b]
                       in (Inr (balance (objs2 ! self), balance (objs2 ! other)), objs2))))"

text \<open>
  The process: the shared counter and the accounts constructed so far, in the order of their
  construction. A call names its receiver by position; a position that holds no object is
  not a call a Python program can write, and leaves the state as it is.
\<close>

record world =
  next_account_number :: int
  objects :: "account list"

definition initial_world :: world where
  "initial_world = \<lparr>next_account_number = 1000, objects = []\<rparr>"

datatype call =
    New name_arg amount
  | Deposit nat amount
  | Withdraw nat amount
  | TransferTo nat target amount

fun valid_target :: "account list \<Rightarrow> target \<Rightarrow> bool" where
  "valid_target objs (Account r) = (r < length objs)"
| "valid_target objs NotAccount = True"

fun exec_call :: "world \<Rightarrow> call \<Rightarrow> world" where
  "exec_call w (New n b) =
     (case BankAccount_init (next_account_number w) n b of
        (Inl _, k) \<Rightarrow> w\<lparr>next_account_number := k\<rparr>
      | (Inr a, k) \<Rightarrow> w\<lparr>next_account_number := k, objects := objects w @ [a]\<rparr>)"
| "exec_call w (Deposit r amt) =
     (if r < length (objects w)
      then w\<lparr>objects := (objects w)[r := snd (deposit (objects w ! r) amt)]\<rparr> else w)"
| "exec_call w (Withdraw r amt) =
     (if r < length (objects w)
      then w\<lparr>objects := (objects w)[r := snd (withdraw (objects w ! r) amt)]\<rparr> else w)"
| "exec_call w (TransferTo r t amt) =
     (if r < length (objects w) \<and> valid_target (objects w) t
      then w\<lparr>objects := snd (transfer_to (objects w) r t amt)\<rparr> else w)"

definition run :: "world \<Rightarrow> call list \<Rightarrow> world" where
  "run w calls = foldl exec_call w calls"

text \<open>
  A coefficient and exponent that the context holds as they are: at most \<open>prec\<close> digits,
  an exponent not below \<open>Etiny\<close> and an adjusted exponent not above \<open>Emax\<close>.
\<close>

definition in_context :: "int \<Rightarrow> int \<Rightarrow> bool" where
  "in_context c e \<longleftrightarrow>
     int (ndigits (nat \<bar>c\<bar>)) \<le> prec \<and> Etiny \<le> e \<and> int (ndigits (nat \<bar>c\<bar>)) + e - 1 \<le> Emax"

text \<open>The exact sum of two finite decimals, as a coefficient at the smaller exponent.\<close>

definition aligned_sum :: "int \<Rightarrow> int \<Rightarrow> int \<Rightarrow> int \<Rightarrow> int" where
  "aligned_sum c1 e1 c2 e2 = c1 * 10 ^ nat (e1 - min e1 e2) + c2 * 10 ^ nat (e2 - min e1 e2)"

section \<open>Array\<close>

text \<open>
  A slot of \<open>Programs/P30_Array.py\<close> holds any Python object; \<open>None\<close> marks an empty
  slot. The constructor tells \<open>None\<close>, a \<open>list\<close> and any other object apart, so these are
  the three kinds of value; objects of the third kind are compared with \<open>==\<close>, here \<open>=\<close>.
\<close>

datatype 'a pyval = PyNone | PyList "'a pyval list" | PyObj 'a

record 'a array =
  size_arr :: int
  items :: "'a pyval list"

datatype size_arg = IntArg int | NonInt

definition Array_init :: "size_arg \<Rightarrow> 'a pyval \<Rightarrow> error + 'a array" where
  "Array_init sz default_value =
     (case sz of
        NonInt \<Rightarrow> Inl TypeError
      | IntArg n \<Rightarrow>
          if n \<le> 0 then Inl ValueError
          else
            (case default_value of
               PyNone \<Rightarrow> Inr \<lparr>size_arr = n, items = replicate (nat n) PyNone\<rparr>
             | PyList vs \<Rightarrow>
                 if n < int (length vs) then Inl ValueError
                 else Inr \<lparr>size_arr = n,
                           items = vs @ replicate (nat (n - int (length vs))) PyNone\<rparr>
             | PyObj v \<Rightarrow> Inr \<lparr>size_arr = n, items = replicate (nat n) (PyObj v)\<rparr>))"

definition get_length :: "'a array \<Rightarrow> int" where
  "get_length self = int (length (filter (\<lambda>item. item \<noteq> PyNone) (items self)))"

text \<open>
  Reading and writing a Python list at an \<open>int\<close>: a negative index counts from the end,
  and an index outside the list raises IndexError.
\<close>

definition norm_index :: "nat \<Rightarrow> int \<Rightarrow> nat option" where
  "norm_index len i =
     (if 0 \<le> i \<and> i < int len then Some (nat i)
      else if i < 0 \<and> - int len \<le> i then Some (nat (int len + i))
      else None)"

definition list_getitem :: "'b list \<Rightarrow> int \<Rightarrow> error + 'b" where
  "list_getitem xs i =
     (case norm_index (length xs) i of None \<Rightarrow> Inl IndexError | Some j \<Rightarrow> Inr (xs ! j))"

definition list_setitem :: "'b list \<Rightarrow> int \<Rightarrow> 'b \<Rightarrow> error + 'b list" where
  "list_setitem xs i v =
     (case norm_index (length xs) i of None \<Rightarrow> Inl IndexError | Some j \<Rightarrow> Inr (xs[j := v]))"

text \<open>
  The loop \<open>for i in range(start, stop, -1): self.items[i] = self.items[i - 1]\<close>. It returns
  the exception that stopped it, if any, and the list as the loop left it.
\<close>

function shift_right :: "int \<Rightarrow> int \<Rightarrow> 'b list \<Rightarrow> error option \<times> 'b list" where
  "shift_right i stop xs =
     (if stop < i then
        (case list_getitem xs (i - 1) of
           Inl err \<Rightarrow> (Some err, xs)
         | Inr v \<Rightarrow>
             (case list_setitem xs i v of
                Inl err \<Rightarrow> (Some err, xs)
              | Inr xs' \<Rightarrow> shift_right (i - 1) stop xs'))
      else (None, xs))"
  by pat_completeness auto
termination
  by (relation "measure (\<lambda>(i, stop, xs). nat (i - stop))") auto

declare shift_right.simps [simp del]

text \<open>
  An insertion returns the exception it raised, if any, and the array after the call.
\<close>

definition insert_first :: "'a array \<Rightarrow> 'a pyval \<Rightarrow> error option \<times> 'a array" where
  "insert_first self element =
     (if size_arr self \<le> get_length self then (Some ArrayError, self)
      else
        (case shift_right (get_length self) 0 (items self) of
           (Some err, xs) \<Rightarrow> (Some err, self\<lparr>items := xs\<rparr>)
         | (None, xs) \<Rightarrow>
             (case list_setitem xs 0 element of
                Inl err \<Rightarrow> (Some err, self\<lparr>items := xs\<rparr>)
              | Inr xs' \<Rightarrow> (None, self\<lparr>items := xs'\<rparr>))))"

definition insert_at_index :: "'a array \<Rightarrow> int \<Rightarrow> 'a pyval \<Rightarrow> error option \<times> 'a array" where
  "insert_at_index self index element =
     (if size_arr self \<le> get_length self then (Some ArrayError, self)
      else if index < 0 \<or> get_length self < index then (Some IndexError, self)
      else
        (case shift_right (get_length self) index (items self) of
           (Some err, xs) \<Rightarrow> (Some err, self\<lparr>items := xs\<rparr>)
         | (None, xs) \<Rightarrow>
             (case list_setitem xs index element of
                Inl err \<Rightarrow> (Some err, self\<lparr>items := xs\<rparr>)
              | Inr xs' \<Rightarrow> (None, self\<lparr>items := xs'\<rparr>))))"

definition insert_after_index :: "'a array \<Rightarrow> int \<Rightarrow> 'a pyval \<Rightarrow> error option \<times> 'a array" where
  "insert_after_index self index element =
     (if size_arr self \<le> get_length self then (Some ArrayError, self)
      else if index < 0 \<or> get_length self \<le> index then (Some IndexError, self)
      else insert_at_index self (index + 1) element)"

definition insert_before_index :: "'a array \<Rightarrow> int \<Rightarrow> 'a pyval \<Rightarrow> error option \<times> 'a array" where
  "insert_before_index self index element =
     (if size_arr self \<le> get_length self then (Some ArrayError, self)
      else if index < 0 \<or> get_length self < index then (Some IndexError, self)
      else insert_at_index self index element)"

text \<open>
  \<open>list.index\<close>: the first position that holds the value, \<open>None\<close> where Python raises
  ValueError. \<open>delete\<close> writes at the position found, which is inside the list.
\<close>

fun list_index :: "'b list \<Rightarrow> 'b \<Rightarrow> nat option" where
  "list_index [] v = None"
| "list_index (x # xs) v = (if x = v then Some 0 else map_option Suc (list_index xs v))"

definition delete :: "'a array \<Rightarrow> 'a pyval \<Rightarrow> bool \<times> 'a array" where
  "delete self element =
     (case list_index (items self) element of
        None \<Rightarrow> (False, self)
      | Some index \<Rightarrow> (True, self\<lparr>items := (items self)[index := PyNone]\<rparr>))"

definition search :: "'a array \<Rightarrow> 'a pyval \<Rightarrow> nat option" where
  "search self element = list_index (items self) element"

section \<open>Properties of the decimal operations\<close>

lemma aligned_val:
  assumes "m \<le> e"
  shows "of_int (c * 10 ^ nat (e - m)) * (10::rat) powi m = of_int c * 10 powi e"
proof -
  have "(10::rat) powi e = 10 powi (int (nat (e - m)) + m)"
    using assms by simp
  also have "\<dots> = 10 powi int (nat (e - m)) * 10 powi m"
    by (rule power_int_add) simp
  also have "(10::rat) powi int (nat (e - m)) = 10 ^ nat (e - m)"
    by (rule power_int_of_nat)
  finally have "(10::rat) powi e = 10 ^ nat (e - m) * 10 powi m" .
  then show ?thesis
    by (simp only: of_int_mult of_int_power of_int_numeral mult.assoc)
qed

lemma num_less_val:
  "num_less (Fin c1 e1) (Fin c2 e2) \<longleftrightarrow> dec_val (Fin c1 e1) < dec_val (Fin c2 e2)"
proof -
  define m where "m = min e1 e2"
  have pos: "(0::rat) < 10 powi m" by (simp add: zero_less_power_int)
  have "m \<le> e1" "m \<le> e2" by (simp_all add: m_def)
  then have "dec_val (Fin c1 e1) = of_int (c1 * 10 ^ nat (e1 - m)) * 10 powi m"
    and "dec_val (Fin c2 e2) = of_int (c2 * 10 ^ nat (e2 - m)) * 10 powi m"
    by (simp_all only: dec_val.simps aligned_val)
  then have "dec_val (Fin c1 e1) < dec_val (Fin c2 e2)
      \<longleftrightarrow> (of_int (c1 * 10 ^ nat (e1 - m)) :: rat) < of_int (c2 * 10 ^ nat (e2 - m))"
    using pos by (simp only: mult_less_cancel_right_pos)
  also have "\<dots> \<longleftrightarrow> c1 * 10 ^ nat (e1 - m) < c2 * 10 ^ nat (e2 - m)"
    by (simp only: of_int_less_iff)
  finally show ?thesis by (simp add: m_def Let_def)
qed

lemma dec_fix_nonneg:
  assumes "0 \<le> c" "dec_fix c e = Inr d"
  shows "dec_nonneg d"
  using assms by (auto simp: dec_fix_def Let_def sgn_if split: if_splits)

lemma pos_not_le_zero: "0 < c \<Longrightarrow> dec_le (Fin c e) (Fin 0 0) = Inr False"
  by (simp add: dec_le_def Let_def)

lemma withdraw_fail_unchanged:
  "fst (withdraw self amount) = Inl err \<Longrightarrow> snd (withdraw self amount) = self"
  by (auto simp: withdraw_def split: amount.splits sum.splits bool.splits)

lemma withdraw_success_nonneg:
  assumes "fst (withdraw self amount) = Inr b"
  shows "dec_nonneg b \<and> balance (snd (withdraw self amount)) = b"
proof -
  from assms obtain w where am: "amount = Num w"
    and pos: "dec_le w (Fin 0 0) = Inr False"
    and gt: "dec_gt w (balance self) = Inr False"
    and sub: "dec_sub (balance self) w = Inr b"
    by (auto simp: withdraw_def split: amount.splits sum.splits bool.splits)
  then have upd: "balance (snd (withdraw self amount)) = b"
    by (simp add: withdraw_def)
  have "dec_nonneg b"
  proof (cases w)
    case (Fin c e)
    with pos have c: "0 < c" by (simp add: dec_le_def Let_def zero_less_mult_iff)
    show ?thesis
    proof (cases "balance self")
      case (Fin cb eb)
      with gt \<open>w = Fin c e\<close>
      have "0 \<le> cb * 10 ^ nat (eb - min eb e) + - c * 10 ^ nat (e - min eb e)"
        by (simp add: dec_gt_def Let_def min.commute)
      moreover from sub Fin \<open>w = Fin c e\<close>
      have "dec_fix (cb * 10 ^ nat (eb - min eb e) + - c * 10 ^ nat (e - min eb e)) (min eb e) = Inr b"
        by (simp add: dec_sub_def Let_def)
      ultimately show ?thesis by (rule dec_fix_nonneg)
    next
      case PInf
      with sub \<open>w = Fin c e\<close> show ?thesis by (auto simp: dec_sub_def)
    qed (use gt \<open>w = Fin c e\<close> in \<open>simp_all add: dec_gt_def\<close>)
  next
    case PInf
    with gt sub show ?thesis
      by (cases "balance self") (simp_all add: dec_gt_def dec_sub_def)
  qed (use pos in \<open>simp_all add: dec_le_def\<close>)
  with upd show ?thesis by simp
qed

section \<open>Properties of BankAccount\<close>

text \<open>
  C1. A withdrawal of a positive finite amount that exceeds the (finite) balance raises
  InsufficientFundsError and leaves the account as it was; no finite amount exceeds a
  balance of Infinity. A withdrawal that returns leaves
  a balance that is not below zero and returns it; one that raises leaves the account
  unchanged. With balance 100, \<open>withdraw(1500)\<close> raises and the balance stays 100.
\<close>

theorem withdraw_insufficient_funds:
  "(0 < c \<and> balance self = Fin cb eb \<and> dec_val (Fin cb eb) < dec_val (Fin c e)
      \<longrightarrow> withdraw self (Num (Fin c e)) = (Inl InsufficientFundsError, self))
   \<and> (\<forall>b. fst (withdraw self amount) = Inr b
          \<longrightarrow> dec_nonneg b \<and> balance (snd (withdraw self amount)) = b)
   \<and> (\<forall>err. fst (withdraw self amount) = Inl err \<longrightarrow> snd (withdraw self amount) = self)
   \<and> withdraw \<lparr>name = n, balance = Fin 100 0, account_number = k\<rparr> (Num (Fin 1500 0))
         = (Inl InsufficientFundsError, \<lparr>name = n, balance = Fin 100 0, account_number = k\<rparr>)"
proof (intro conjI impI allI)
  assume h: "0 < c \<and> balance self = Fin cb eb \<and> dec_val (Fin cb eb) < dec_val (Fin c e)"
  then have "num_less (Fin cb eb) (Fin c e)" by (simp only: num_less_val)
  with h show "withdraw self (Num (Fin c e)) = (Inl InsufficientFundsError, self)"
    by (simp add: withdraw_def pos_not_le_zero dec_gt_def del: num_less.simps)
next
  fix b assume "fst (withdraw self amount) = Inr b"
  then show "dec_nonneg b" "balance (snd (withdraw self amount)) = b"
    using withdraw_success_nonneg by blast+
next
  fix err assume "fst (withdraw self amount) = Inl err"
  then show "snd (withdraw self amount) = self" by (rule withdraw_fail_unchanged)
next
  show "withdraw \<lparr>name = n, balance = Fin 100 0, account_number = k\<rparr> (Num (Fin 1500 0))
         = (Inl InsufficientFundsError, \<lparr>name = n, balance = Fin 100 0, account_number = k\<rparr>)"
    by (simp add: withdraw_def dec_le_def dec_gt_def)
qed

theorem withdraw_insufficient_funds_witness:
  "(0::int) < 1500
   \<and> balance \<lparr>name = ''Test User'', balance = Fin 1000 0, account_number = 1000\<rparr> = Fin 1000 0
   \<and> dec_val (Fin 1000 0) < dec_val (Fin 1500 0)
   \<and> withdraw \<lparr>name = ''Test User'', balance = Fin 1000 0, account_number = 1000\<rparr> (Num (Fin 1500 0))
       = (Inl InsufficientFundsError, \<lparr>name = ''Test User'', balance = Fin 1000 0, account_number = 1000\<rparr>)
   \<and> fst (withdraw \<lparr>name = ''Test User'', balance = Fin 1000 0, account_number = 1000\<rparr> (Num (Fin 200 0)))
       = Inr (Fin 800 0)
   \<and> dec_nonneg (Fin 800 0)
   \<and> fst (withdraw \<lparr>name = ''Test User'', balance = Fin 1000 0, account_number = 1000\<rparr> Invalid)
       = Inl InvalidAmountError"
  using withdraw_insufficient_funds
    [of 1500 "\<lparr>name = ''Test User'', balance = Fin 1000 0, account_number = 1000\<rparr>" 1000 0 0 "Num (Fin 200 0)"]
  by (simp add: withdraw_def dec_le_def dec_gt_def dec_sub_def dec_fix_def Let_def
      ndigits.simps prec_def Etop_def Etiny_def Emax_def Emin_def)

lemma ndigits_mono: "a \<le> b \<Longrightarrow> ndigits a \<le> ndigits b"
proof (induction b arbitrary: a rule: ndigits.induct)
  case (1 n)
  show ?case
  proof (cases "n < 10")
    case True
    with "1.prems" show ?thesis by (simp add: ndigits.simps [of a] ndigits.simps [of n])
  next
    case False
    show ?thesis
    proof (cases "a < 10")
      case True
      with False show ?thesis by (simp add: ndigits.simps [of a] ndigits.simps [of n])
    next
      case a: False
      from "1.prems" have "a div 10 \<le> n div 10" by (rule div_le_mono)
      from "1.IH" [OF False this] a False show ?thesis
        by (simp add: ndigits.simps [of a] ndigits.simps [of n])
    qed
  qed
qed

lemma ndigits_0: "ndigits 0 = 1"
  by (subst ndigits.simps) simp

lemma dec_fix_in_context:
  assumes "in_context c e"
  shows "dec_fix c e = Inr (Fin c e)"
proof (cases "c = 0")
  case True
  with assms have "Etiny \<le> e" "e \<le> Emax" by (simp_all add: in_context_def ndigits_0)
  with True show ?thesis by (simp add: dec_fix_def)
next
  case False
  from assms have "\<not> Etop < int (ndigits (nat \<bar>c\<bar>)) + e - prec"
    and "\<not> e < max (int (ndigits (nat \<bar>c\<bar>)) + e - prec) Etiny"
    by (auto simp: in_context_def Etop_def max_def)
  with False show ?thesis by (simp add: dec_fix_def Let_def)
qed

lemma in_context_smaller:
  assumes "in_context c e" "\<bar>c'\<bar> \<le> \<bar>c\<bar>"
  shows "in_context c' e"
proof -
  from assms(2) have "ndigits (nat \<bar>c'\<bar>) \<le> ndigits (nat \<bar>c\<bar>)"
    by (intro ndigits_mono) simp
  with assms(1) show ?thesis by (simp add: in_context_def)
qed

lemma aligned_sum_val:
  "dec_val (Fin (aligned_sum c1 e1 c2 e2) (min e1 e2)) = dec_val (Fin c1 e1) + dec_val (Fin c2 e2)"
proof -
  have "min e1 e2 \<le> e1" "min e1 e2 \<le> e2" by simp_all
  from aligned_val [OF this(1), of c1] aligned_val [OF this(2), of c2]
  show ?thesis
    by (simp only: dec_val.simps aligned_sum_def of_int_add distrib_right)
qed

lemma deposit_fail_unchanged:
  "fst (deposit self amount) = Inl err \<Longrightarrow> snd (deposit self amount) = self"
  by (auto simp: deposit_def split: amount.splits sum.splits bool.splits)

lemma dec_add_nonneg:
  assumes "dec_nonneg a" "dec_le w (Fin 0 0) = Inr False" "dec_add a w = Inr b"
  shows "dec_nonneg b"
proof (cases w)
  case (Fin c e)
  with assms(2) have c: "0 < c" by (simp add: dec_le_def Let_def zero_less_mult_iff)
  show ?thesis
  proof (cases a)
    case a: (Fin ca ea)
    with assms(1) c have "0 \<le> ca * 10 ^ nat (ea - min ea e) + c * 10 ^ nat (e - min ea e)"
      by simp
    moreover from assms(3) a Fin
    have "dec_fix (ca * 10 ^ nat (ea - min ea e) + c * 10 ^ nat (e - min ea e)) (min ea e) = Inr b"
      by (simp add: Let_def)
    ultimately show ?thesis by (rule dec_fix_nonneg)
  qed (use assms Fin in auto)
next
  case PInf
  with assms show ?thesis by (cases a) auto
qed (use assms in \<open>simp_all add: dec_le_def\<close>)

lemma deposit_nonneg:
  assumes "dec_nonneg (balance self)"
  shows "dec_nonneg (balance (snd (deposit self amount)))"
proof (cases "fst (deposit self amount)")
  case (Inl err)
  with assms show ?thesis by (simp add: deposit_fail_unchanged)
next
  case (Inr b)
  then obtain w where "amount = Num w" "dec_le w (Fin 0 0) = Inr False"
      "dec_add (balance self) w = Inr b"
    by (auto simp: deposit_def split: amount.splits sum.splits bool.splits)
  moreover from this have "balance (snd (deposit self amount)) = b"
    by (simp add: deposit_def)
  ultimately show ?thesis using assms dec_add_nonneg by simp
qed

lemma withdraw_nonneg:
  assumes "dec_nonneg (balance self)"
  shows "dec_nonneg (balance (snd (withdraw self amount)))"
proof (cases "fst (withdraw self amount)")
  case (Inl err)
  with assms show ?thesis by (simp add: withdraw_fail_unchanged)
next
  case (Inr b)
  then show ?thesis using withdraw_success_nonneg by simp
qed

lemma deposit_account_number [simp]:
  "account_number (snd (deposit self amount)) = account_number self"
  by (auto simp: deposit_def split: amount.splits sum.splits bool.splits)

lemma withdraw_account_number [simp]:
  "account_number (snd (withdraw self amount)) = account_number self"
  by (auto simp: withdraw_def split: amount.splits sum.splits bool.splits)


lemma deposit_exact:
  assumes "balance self = Fin cb eb" "0 < cd"
    and "in_context (aligned_sum cb eb cd ed) (min eb ed)"
  shows "deposit self (Num (Fin cd ed))
           = (Inr (Fin (aligned_sum cb eb cd ed) (min eb ed)),
              self\<lparr>balance := Fin (aligned_sum cb eb cd ed) (min eb ed)\<rparr>)"
proof -
  have "dec_add (Fin cb eb) (Fin cd ed) = dec_fix (aligned_sum cb eb cd ed) (min eb ed)"
    by (simp add: aligned_sum_def Let_def)
  with assms(3) have "dec_add (Fin cb eb) (Fin cd ed) = Inr (Fin (aligned_sum cb eb cd ed) (min eb ed))"
    by (simp only: dec_fix_in_context)
  with assms(1,2) show ?thesis
    by (simp add: deposit_def pos_not_le_zero del: dec_add.simps)
qed

lemma withdraw_exact:
  assumes "balance self = Fin cb eb" "0 < cd"
    and "\<not> num_less (Fin cb eb) (Fin cd ed)"
    and "in_context (aligned_sum cb eb (- cd) ed) (min eb ed)"
  shows "withdraw self (Num (Fin cd ed))
           = (Inr (Fin (aligned_sum cb eb (- cd) ed) (min eb ed)),
              self\<lparr>balance := Fin (aligned_sum cb eb (- cd) ed) (min eb ed)\<rparr>)"
proof -
  have "dec_sub (Fin cb eb) (Fin cd ed) = dec_fix (aligned_sum cb eb (- cd) ed) (min eb ed)"
    by (simp add: dec_sub_def aligned_sum_def Let_def)
  with assms(4)
  have "dec_sub (Fin cb eb) (Fin cd ed) = Inr (Fin (aligned_sum cb eb (- cd) ed) (min eb ed))"
    by (simp only: dec_fix_in_context)
  with assms(1,2,3) show ?thesis
    by (simp add: withdraw_def pos_not_le_zero dec_gt_def del: num_less.simps)
qed

text \<open>
  C4 (amended). For an account with a finite balance \<open>b >= 0\<close> and a positive finite amount
  \<open>d\<close> such that the exact sum \<open>b + d\<close>, written at the smaller of the two exponents, has
  at most 28 digits and an exponent within the limits of the context, \<open>deposit(d)\<close> followed
  by \<open>withdraw(d)\<close> both return, and the final balance is numerically \<open>b\<close>.
\<close>

theorem deposit_withdraw_round_trip:
  assumes "balance self = Fin cb eb" and "0 \<le> cb" and "0 < cd"
    and "in_context (aligned_sum cb eb cd ed) (min eb ed)"
  shows "deposit self (Num (Fin cd ed))
           = (Inr (Fin (aligned_sum cb eb cd ed) (min eb ed)),
              self\<lparr>balance := Fin (aligned_sum cb eb cd ed) (min eb ed)\<rparr>)
       \<and> withdraw (snd (deposit self (Num (Fin cd ed)))) (Num (Fin cd ed))
           = (Inr (Fin (cb * 10 ^ nat (eb - min eb ed)) (min eb ed)),
              self\<lparr>balance := Fin (cb * 10 ^ nat (eb - min eb ed)) (min eb ed)\<rparr>)
       \<and> dec_val (Fin (cb * 10 ^ nat (eb - min eb ed)) (min eb ed)) = dec_val (balance self)"
proof -
  define m where "m = min eb ed"
  define S where "S = aligned_sum cb eb cd ed"
  define B where "B = cb * 10 ^ nat (eb - m)"
  define D where "D = cd * 10 ^ nat (ed - m)"
  have S: "S = B + D" by (simp add: S_def B_def D_def aligned_sum_def m_def)
  from assms(2,3) have B0: "0 \<le> B" and D0: "0 < D" by (simp_all add: B_def D_def)
  have mm: "min m ed = m" by (simp add: m_def)
  from assms(1,3,4) have dep: "deposit self (Num (Fin cd ed)) = (Inr (Fin S m), self\<lparr>balance := Fin S m\<rparr>)"
    unfolding S_def m_def by (rule deposit_exact)
  have bal: "balance (self\<lparr>balance := Fin S m\<rparr>) = Fin S m" by simp
  have nl: "\<not> num_less (Fin S m) (Fin cd ed)"
    using B0 by (simp add: mm Let_def S D_def [symmetric])
  have diff: "aligned_sum S m (- cd) ed = B"
    by (simp add: aligned_sum_def mm S D_def)
  from B0 D0 have "\<bar>B\<bar> \<le> \<bar>S\<bar>" by (simp add: S)
  with assms(4) have "in_context B m" unfolding S_def [symmetric] m_def [symmetric]
    by (rule in_context_smaller)
  with diff have ic: "in_context (aligned_sum S m (- cd) ed) (min m ed)" by (simp add: mm)
  from withdraw_exact [OF bal assms(3) nl ic] diff
  have wd: "withdraw (self\<lparr>balance := Fin S m\<rparr>) (Num (Fin cd ed))
              = (Inr (Fin B m), self\<lparr>balance := Fin B m\<rparr>)"
    by (simp add: mm)
  have "m \<le> eb" by (simp add: m_def)
  from aligned_val [OF this, of cb] assms(1)
  have val: "dec_val (Fin B m) = dec_val (balance self)" by (simp add: B_def)
  from dep wd val show ?thesis
    by (simp add: S_def m_def B_def)
qed

theorem deposit_withdraw_round_trip_witness:
  "balance \<lparr>name = ''Test User'', balance = Fin 100 0, account_number = 1000\<rparr> = Fin 100 0
   \<and> (0::int) \<le> 100 \<and> (0::int) < 1
   \<and> in_context (aligned_sum 100 0 1 (- 2)) (min 0 (- 2))
   \<and> deposit \<lparr>name = ''Test User'', balance = Fin 100 0, account_number = 1000\<rparr> (Num (Fin 1 (- 2)))
       = (Inr (Fin 10001 (- 2)), \<lparr>name = ''Test User'', balance = Fin 10001 (- 2), account_number = 1000\<rparr>)
   \<and> withdraw \<lparr>name = ''Test User'', balance = Fin 10001 (- 2), account_number = 1000\<rparr> (Num (Fin 1 (- 2)))
       = (Inr (Fin 10000 (- 2)), \<lparr>name = ''Test User'', balance = Fin 10000 (- 2), account_number = 1000\<rparr>)
   \<and> dec_val (Fin 10000 (- 2)) = dec_val (Fin 100 0)"
proof -
  have ic: "in_context (aligned_sum 100 0 1 (- 2)) (min 0 (- 2))"
    by (simp add: in_context_def aligned_sum_def ndigits.simps prec_def Etiny_def Emin_def Emax_def)
  from deposit_withdraw_round_trip
    [of "\<lparr>name = ''Test User'', balance = Fin 100 0, account_number = 1000\<rparr>" 100 0 1 "- 2"] ic
  show ?thesis
    by (auto simp: aligned_sum_def)
qed

text \<open>
  C4 as stated fails where the sum does not fit 28 digits: with balance \<open>10^28\<close>,
  \<open>deposit(1)\<close> rounds \<open>10^28 + 1\<close> to \<open>1.000000000000000000000000000E+28\<close>, and
  \<open>withdraw(1)\<close> then leaves \<open>9999999999999999999999999999\<close>, one less than the original
  balance.
\<close>

theorem deposit_withdraw_drift_counterexample:
  "deposit \<lparr>name = ''Test User'', balance = Fin 10000000000000000000000000000 0, account_number = 1000\<rparr>
      (Num (Fin 1 0))
     = (Inr (Fin 1000000000000000000000000000 1),
        \<lparr>name = ''Test User'', balance = Fin 1000000000000000000000000000 1, account_number = 1000\<rparr>)
   \<and> withdraw \<lparr>name = ''Test User'', balance = Fin 1000000000000000000000000000 1, account_number = 1000\<rparr>
      (Num (Fin 1 0))
     = (Inr (Fin 9999999999999999999999999999 0),
        \<lparr>name = ''Test User'', balance = Fin 9999999999999999999999999999 0, account_number = 1000\<rparr>)
   \<and> dec_val (Fin 9999999999999999999999999999 0) \<noteq> dec_val (Fin 10000000000000000000000000000 0)"
  by (simp add: deposit_def withdraw_def dec_le_def dec_gt_def dec_sub_def dec_fix_def Let_def
      round_half_even_def ndigits.simps prec_def Etop_def Etiny_def Emax_def Emin_def)

lemma dec_val_neg: "dec_val (Fin (- c) e) = - dec_val (Fin c e)"
  by simp

text \<open>
  C2 (amended). For two distinct accounts: if the inner \<open>withdraw\<close> raises, \<open>transfer_to\<close>
  raises the same exception and no account is changed. If the amount is a positive finite
  decimal \<open>d\<close> not above the sender's finite balance, and both the difference
  \<open>sender - d\<close> and the sum \<open>receiver + d\<close>, written at the smaller exponent of their
  operands, have at most 28 digits and an exponent within the limits of the context, then
  \<open>transfer_to\<close> returns the pair of new balances, the sender's balance is lower by
  exactly \<open>d\<close> and the receiver's higher by exactly \<open>d\<close>.
\<close>

theorem transfer_to_all_or_nothing:
  assumes "self < length objs" and "other < length objs" and "self \<noteq> other"
  shows "(\<forall>err. fst (withdraw (objs ! self) amount) = Inl err
            \<longrightarrow> transfer_to objs self (Account other) amount = (Inl err, objs))
       \<and> (balance (objs ! self) = Fin cs es \<and> balance (objs ! other) = Fin cr er \<and> 0 < cd
            \<and> dec_val (Fin cd ed) \<le> dec_val (Fin cs es)
            \<and> in_context (aligned_sum cs es (- cd) ed) (min es ed)
            \<and> in_context (aligned_sum cr er cd ed) (min er ed)
          \<longrightarrow> transfer_to objs self (Account other) (Num (Fin cd ed))
                = (Inr (Fin (aligned_sum cs es (- cd) ed) (min es ed),
                        Fin (aligned_sum cr er cd ed) (min er ed)),
                   objs[self := (objs ! self)\<lparr>balance := Fin (aligned_sum cs es (- cd) ed) (min es ed)\<rparr>,
                        other := (objs ! other)\<lparr>balance := Fin (aligned_sum cr er cd ed) (min er ed)\<rparr>])
              \<and> dec_val (Fin (aligned_sum cs es (- cd) ed) (min es ed))
                  = dec_val (Fin cs es) - dec_val (Fin cd ed)
              \<and> dec_val (Fin (aligned_sum cr er cd ed) (min er ed))
                  = dec_val (Fin cr er) + dec_val (Fin cd ed))"
proof (intro conjI allI impI)
  fix err assume f: "fst (withdraw (objs ! self) amount) = Inl err"
  then have "snd (withdraw (objs ! self) amount) = objs ! self"
    by (rule withdraw_fail_unchanged)
  with f have "withdraw (objs ! self) amount = (Inl err, objs ! self)"
    by (simp add: prod_eq_iff)
  then show "transfer_to objs self (Account other) amount = (Inl err, objs)"
    by (simp add: transfer_to_def)
next
  assume h: "balance (objs ! self) = Fin cs es \<and> balance (objs ! other) = Fin cr er \<and> 0 < cd
            \<and> dec_val (Fin cd ed) \<le> dec_val (Fin cs es)
            \<and> in_context (aligned_sum cs es (- cd) ed) (min es ed)
            \<and> in_context (aligned_sum cr er cd ed) (min er ed)"
  define S where "S = Fin (aligned_sum cs es (- cd) ed) (min es ed)"
  define R where "R = Fin (aligned_sum cr er cd ed) (min er ed)"
  from h have "\<not> dec_val (Fin cs es) < dec_val (Fin cd ed)" by simp
  then have nl: "\<not> num_less (Fin cs es) (Fin cd ed)" unfolding num_less_val .
  from h nl have w: "withdraw (objs ! self) (Num (Fin cd ed)) = (Inr S, (objs ! self)\<lparr>balance := S\<rparr>)"
    unfolding S_def by (intro withdraw_exact) simp_all
  from h have d: "deposit (objs ! other) (Num (Fin cd ed)) = (Inr R, (objs ! other)\<lparr>balance := R\<rparr>)"
    unfolding R_def by (intro deposit_exact) simp_all
  from assms w d
  have "transfer_to objs self (Account other) (Num (Fin cd ed))
          = (Inr (S, R), objs[self := (objs ! self)\<lparr>balance := S\<rparr>,
                              other := (objs ! other)\<lparr>balance := R\<rparr>])"
    by (simp add: transfer_to_def Let_def)
  then show "transfer_to objs self (Account other) (Num (Fin cd ed))
                = (Inr (Fin (aligned_sum cs es (- cd) ed) (min es ed),
                        Fin (aligned_sum cr er cd ed) (min er ed)),
                   objs[self := (objs ! self)\<lparr>balance := Fin (aligned_sum cs es (- cd) ed) (min es ed)\<rparr>,
                        other := (objs ! other)\<lparr>balance := Fin (aligned_sum cr er cd ed) (min er ed)\<rparr>])"
    by (simp only: S_def R_def)
  show "dec_val (Fin (aligned_sum cs es (- cd) ed) (min es ed))
          = dec_val (Fin cs es) - dec_val (Fin cd ed)"
    by (simp only: aligned_sum_val dec_val_neg)
  show "dec_val (Fin (aligned_sum cr er cd ed) (min er ed))
          = dec_val (Fin cr er) + dec_val (Fin cd ed)"
    by (rule aligned_sum_val)
qed


theorem transfer_to_all_or_nothing_witness:
  "(0::nat) < length [\<lparr>name = ''Alice'', balance = Fin 1000 0, account_number = 1000\<rparr>,
                     \<lparr>name = ''Bob'', balance = Fin 500 0, account_number = 1001\<rparr>]
   \<and> (1::nat) < length [\<lparr>name = ''Alice'', balance = Fin 1000 0, account_number = 1000\<rparr>,
                       \<lparr>name = ''Bob'', balance = Fin 500 0, account_number = 1001\<rparr>]
   \<and> (0::nat) \<noteq> 1
   \<and> fst (withdraw \<lparr>name = ''Alice'', balance = Fin 1000 0, account_number = 1000\<rparr> (Num (Fin 1500 0)))
       = Inl InsufficientFundsError
   \<and> transfer_to [\<lparr>name = ''Alice'', balance = Fin 1000 0, account_number = 1000\<rparr>,
                  \<lparr>name = ''Bob'', balance = Fin 500 0, account_number = 1001\<rparr>]
        0 (Account 1) (Num (Fin 1500 0))
       = (Inl InsufficientFundsError,
          [\<lparr>name = ''Alice'', balance = Fin 1000 0, account_number = 1000\<rparr>,
           \<lparr>name = ''Bob'', balance = Fin 500 0, account_number = 1001\<rparr>])
   \<and> (0::int) < 200 \<and> dec_val (Fin 200 0) \<le> dec_val (Fin 1000 0)
   \<and> in_context (aligned_sum 1000 0 (- 200) 0) (min 0 0)
   \<and> in_context (aligned_sum 500 0 200 0) (min 0 0)
   \<and> transfer_to [\<lparr>name = ''Alice'', balance = Fin 1000 0, account_number = 1000\<rparr>,
                  \<lparr>name = ''Bob'', balance = Fin 500 0, account_number = 1001\<rparr>]
        0 (Account 1) (Num (Fin 200 0))
       = (Inr (Fin 800 0, Fin 700 0),
          [\<lparr>name = ''Alice'', balance = Fin 800 0, account_number = 1000\<rparr>,
           \<lparr>name = ''Bob'', balance = Fin 700 0, account_number = 1001\<rparr>])"
proof -
  let ?objs = "[\<lparr>name = ''Alice'', balance = Fin 1000 0, account_number = 1000\<rparr>,
                \<lparr>name = ''Bob'', balance = Fin 500 0, account_number = 1001\<rparr>]"
  have ic: "in_context (aligned_sum 1000 0 (- 200) 0) (min 0 0)"
      "in_context (aligned_sum 500 0 200 0) (min 0 0)"
    by (simp_all add: in_context_def aligned_sum_def ndigits.simps prec_def Etiny_def Emin_def Emax_def)
  have w: "fst (withdraw \<lparr>name = ''Alice'', balance = Fin 1000 0, account_number = 1000\<rparr> (Num (Fin 1500 0)))
       = Inl InsufficientFundsError"
    by (simp add: withdraw_def dec_le_def dec_gt_def)
  have a: "transfer_to ?objs 0 (Account 1) (Num (Fin 1500 0)) = (Inl InsufficientFundsError, ?objs)"
    using transfer_to_all_or_nothing [of 0 ?objs 1 "Num (Fin 1500 0)"] w by simp
  have b: "transfer_to ?objs 0 (Account 1) (Num (Fin 200 0))
       = (Inr (Fin 800 0, Fin 700 0),
          [\<lparr>name = ''Alice'', balance = Fin 800 0, account_number = 1000\<rparr>,
           \<lparr>name = ''Bob'', balance = Fin 700 0, account_number = 1001\<rparr>])"
    using transfer_to_all_or_nothing [of 0 ?objs 1 "Num (Fin 200 0)" 1000 0 500 0 200 0] ic
    by (simp add: aligned_sum_def)
  from ic w a b show ?thesis by simp
qed

text \<open>
  C2 as stated fails in two ways. With sender balance 5, receiver balance \<open>10^28\<close> and
  amount 1 the call returns, the sender holds 4 and the receiver's balance is numerically
  what it was (\<open>10^28 + 1\<close> is rounded to 28 digits). With both balances and the amount
  \<open>9E+999999\<close> the withdrawal succeeds and the deposit raises the decimal module's Overflow:
  the sender is left at zero and the receiver unchanged.
\<close>

theorem transfer_to_partial_counterexample:
  "transfer_to [\<lparr>name = ''Alice'', balance = Fin 5 0, account_number = 1000\<rparr>,
                \<lparr>name = ''Bob'', balance = Fin 10000000000000000000000000000 0, account_number = 1001\<rparr>]
      0 (Account 1) (Num (Fin 1 0))
     = (Inr (Fin 4 0, Fin 1000000000000000000000000000 1),
        [\<lparr>name = ''Alice'', balance = Fin 4 0, account_number = 1000\<rparr>,
         \<lparr>name = ''Bob'', balance = Fin 1000000000000000000000000000 1, account_number = 1001\<rparr>])
   \<and> dec_val (Fin 4 0) \<noteq> dec_val (Fin 5 0)
   \<and> dec_val (Fin 1000000000000000000000000000 1) = dec_val (Fin 10000000000000000000000000000 0)
   \<and> transfer_to [\<lparr>name = ''Alice'', balance = Fin 9 999999, account_number = 1000\<rparr>,
                  \<lparr>name = ''Bob'', balance = Fin 9 999999, account_number = 1001\<rparr>]
      0 (Account 1) (Num (Fin 9 999999))
     = (Inl Overflow,
        [\<lparr>name = ''Alice'', balance = Fin 0 999999, account_number = 1000\<rparr>,
         \<lparr>name = ''Bob'', balance = Fin 9 999999, account_number = 1001\<rparr>])"
proof -
  have r: "transfer_to [\<lparr>name = ''Alice'', balance = Fin 5 0, account_number = 1000\<rparr>,
                \<lparr>name = ''Bob'', balance = Fin 10000000000000000000000000000 0, account_number = 1001\<rparr>]
      0 (Account 1) (Num (Fin 1 0))
     = (Inr (Fin 4 0, Fin 1000000000000000000000000000 1),
        [\<lparr>name = ''Alice'', balance = Fin 4 0, account_number = 1000\<rparr>,
         \<lparr>name = ''Bob'', balance = Fin 1000000000000000000000000000 1, account_number = 1001\<rparr>])"
    by (simp add: transfer_to_def deposit_def withdraw_def dec_le_def dec_gt_def dec_sub_def
        dec_fix_def Let_def round_half_even_def ndigits.simps prec_def Etop_def Etiny_def
        Emax_def Emin_def)
  have v: "dec_val (Fin 4 0) \<noteq> dec_val (Fin 5 0)"
      "dec_val (Fin 1000000000000000000000000000 1) = dec_val (Fin 10000000000000000000000000000 0)"
    by simp_all
  have w: "withdraw \<lparr>name = ''Alice'', balance = Fin 9 999999, account_number = 1000\<rparr> (Num (Fin 9 999999))
      = (Inr (Fin 0 999999), \<lparr>name = ''Alice'', balance = Fin 0 999999, account_number = 1000\<rparr>)"
    by (simp add: withdraw_def pos_not_le_zero dec_gt_def dec_sub_def dec_fix_def Let_def
        Etiny_def Emax_def Emin_def prec_def)
  have d: "deposit \<lparr>name = ''Bob'', balance = Fin 9 999999, account_number = 1001\<rparr> (Num (Fin 9 999999))
      = (Inl Overflow, \<lparr>name = ''Bob'', balance = Fin 9 999999, account_number = 1001\<rparr>)"
    by (simp add: deposit_def pos_not_le_zero dec_fix_def Let_def ndigits.simps
        Etop_def Emax_def prec_def)
  from w d have o: "transfer_to [\<lparr>name = ''Alice'', balance = Fin 9 999999, account_number = 1000\<rparr>,
                  \<lparr>name = ''Bob'', balance = Fin 9 999999, account_number = 1001\<rparr>]
      0 (Account 1) (Num (Fin 9 999999))
     = (Inl Overflow,
        [\<lparr>name = ''Alice'', balance = Fin 0 999999, account_number = 1000\<rparr>,
         \<lparr>name = ''Bob'', balance = Fin 9 999999, account_number = 1001\<rparr>])"
    by (simp add: transfer_to_def Let_def)
  from r v o show ?thesis by simp
qed

lemma init_nonneg:
  assumes "BankAccount_init k n b = (Inr a, k')"
  shows "dec_nonneg (balance a)"
proof -
  from assms obtain s d where "b = Num d" and lt: "dec_lt d (Fin 0 0) = Inr False"
    and a: "a = \<lparr>name = strip s, balance = d, account_number = k\<rparr>"
    by (auto simp: BankAccount_init_def split: name_arg.splits if_splits amount.splits
        sum.splits bool.splits)
  from lt have "dec_nonneg d"
    by (cases d) (auto simp: dec_lt_def Let_def not_less mult_less_0_iff split: if_splits)
  with a show ?thesis by simp
qed

lemma init_counter:
  "BankAccount_init k n b = (Inl err, k') \<Longrightarrow> k' = k"
  "BankAccount_init k n b = (Inr a, k') \<Longrightarrow> account_number a = k \<and> k' = k + 1"
  by (auto simp: BankAccount_init_def split: name_arg.splits if_splits amount.splits
      sum.splits bool.splits)

lemma transfer_to_store:
  "snd (transfer_to objs s (Account r) amt) =
     (case fst (withdraw (objs ! s) amt) of
        Inl _ \<Rightarrow> objs[s := snd (withdraw (objs ! s) amt)]
      | Inr _ \<Rightarrow> (objs[s := snd (withdraw (objs ! s) amt)])
                  [r := snd (deposit (objs[s := snd (withdraw (objs ! s) amt)] ! r) amt)])"
  by (simp add: transfer_to_def Let_def split: prod.splits sum.splits)

lemma update_all:
  assumes "\<forall>a \<in> set objs. P a" and "P x"
  shows "\<forall>a \<in> set (objs[i := x]). P a"
  using assms set_update_subset_insert [of objs i x] by auto

lemma transfer_to_nonneg:
  assumes "\<forall>a \<in> set objs. dec_nonneg (balance a)"
    and "s < length objs" and "valid_target objs t"
  shows "\<forall>a \<in> set (snd (transfer_to objs s t amt)). dec_nonneg (balance a)"
proof (cases t)
  case NotAccount
  with assms show ?thesis by (simp add: transfer_to_def)
next
  case (Account r)
  define a where "a = snd (withdraw (objs ! s) amt)"
  define objs1 where "objs1 = objs[s := a]"
  from assms(1,2) have "dec_nonneg (balance (objs ! s))" by simp
  then have "dec_nonneg (balance a)" unfolding a_def by (rule withdraw_nonneg)
  with assms(1) have 1: "\<forall>a \<in> set objs1. dec_nonneg (balance a)"
    unfolding objs1_def by (rule update_all)
  from Account assms(3) have "r < length objs1" by (simp add: objs1_def)
  with 1 have "dec_nonneg (balance (objs1 ! r))" by simp
  then have "dec_nonneg (balance (snd (deposit (objs1 ! r) amt)))" by (rule deposit_nonneg)
  with 1 have 2: "\<forall>a \<in> set (objs1[r := snd (deposit (objs1 ! r) amt)]). dec_nonneg (balance a)"
    by (rule update_all)
  from 1 2 Account show ?thesis
    by (simp add: transfer_to_store a_def objs1_def split: sum.splits)
qed

lemma exec_call_nonneg:
  assumes "\<forall>a \<in> set (objects w). dec_nonneg (balance a)"
  shows "\<forall>a \<in> set (objects (exec_call w c)). dec_nonneg (balance a)"
proof (cases c)
  case (New n b)
  with assms show ?thesis
    by (auto split: prod.splits sum.splits dest: init_nonneg)
next
  case (Deposit r amt)
  show ?thesis
  proof (cases "r < length (objects w)")
    case True
    with assms have "dec_nonneg (balance (objects w ! r))" by simp
    then have "dec_nonneg (balance (snd (deposit (objects w ! r) amt)))" by (rule deposit_nonneg)
    with assms have "\<forall>a \<in> set ((objects w)[r := snd (deposit (objects w ! r) amt)]). dec_nonneg (balance a)"
      by (rule update_all)
    with Deposit True show ?thesis by simp
  next
    case False
    with Deposit assms show ?thesis by simp
  qed
next
  case (Withdraw r amt)
  show ?thesis
  proof (cases "r < length (objects w)")
    case True
    with assms have "dec_nonneg (balance (objects w ! r))" by simp
    then have "dec_nonneg (balance (snd (withdraw (objects w ! r) amt)))" by (rule withdraw_nonneg)
    with assms have "\<forall>a \<in> set ((objects w)[r := snd (withdraw (objects w ! r) amt)]). dec_nonneg (balance a)"
      by (rule update_all)
    with Withdraw True show ?thesis by simp
  next
    case False
    with Withdraw assms show ?thesis by simp
  qed
next
  case (TransferTo r t amt)
  show ?thesis
  proof (cases "r < length (objects w) \<and> valid_target (objects w) t")
    case True
    with assms have "\<forall>a \<in> set (snd (transfer_to (objects w) r t amt)). dec_nonneg (balance a)"
      by (intro transfer_to_nonneg) simp_all
    with TransferTo True show ?thesis by simp
  next
    case False
    with TransferTo assms show ?thesis by auto
  qed
qed

lemma run_nonneg:
  "\<forall>a \<in> set (objects w). dec_nonneg (balance a) \<Longrightarrow>
   \<forall>a \<in> set (objects (run w calls)). dec_nonneg (balance a)"
proof (induction calls arbitrary: w)
  case Nil
  then show ?case by (simp add: run_def)
next
  case (Cons c calls)
  from Cons.prems have "\<forall>a \<in> set (objects (exec_call w c)). dec_nonneg (balance a)"
    by (rule exec_call_nonneg)
  from Cons.IH [OF this] show ?case by (simp add: run_def)
qed

text \<open>
  C3. An account that the constructor returns has a balance that is not below zero, and
  after every sequence of constructions, deposits, withdrawals and transfers, whether each
  call returns or raises, every account of the process has a balance that is not below
  zero. A sequence run from the start covers the state after each of its calls, since every
  prefix is such a sequence.
\<close>

theorem balance_never_negative:
  "(BankAccount_init k n b = (Inr a, k') \<longrightarrow> dec_nonneg (balance a))
   \<and> (\<forall>acct \<in> set (objects (run initial_world calls)). dec_nonneg (balance acct))"
proof (intro conjI impI)
  assume "BankAccount_init k n b = (Inr a, k')"
  then show "dec_nonneg (balance a)" by (rule init_nonneg)
next
  have "\<forall>a \<in> set (objects initial_world). dec_nonneg (balance a)"
    by (simp add: initial_world_def)
  then show "\<forall>acct \<in> set (objects (run initial_world calls)). dec_nonneg (balance acct)"
    by (rule run_nonneg)
qed

theorem balance_never_negative_witness:
  "BankAccount_init 1000 (Str ''Alice'') (Num (Fin 1000 0))
     = (Inr \<lparr>name = ''Alice'', balance = Fin 1000 0, account_number = 1000\<rparr>, 1001)
   \<and> dec_nonneg (Fin 1000 0)
   \<and> objects (run initial_world
        [New (Str ''Alice'') (Num (Fin 1000 0)), New (Str ''Bob'') (Num (Fin 500 0)),
         Deposit 0 (Num (Fin 250 0)), Withdraw 0 (Num (Fin 150 0)),
         TransferTo 0 (Account 1) (Num (Fin 300 0)), Withdraw 0 (Num (Fin 2000 0)),
         Deposit 1 (Num (Fin (- 50) 0))])
     = [\<lparr>name = ''Alice'', balance = Fin 800 0, account_number = 1000\<rparr>,
        \<lparr>name = ''Bob'', balance = Fin 800 0, account_number = 1001\<rparr>]
   \<and> dec_nonneg (balance \<lparr>name = ''Alice'', balance = Fin 800 0, account_number = 1000\<rparr>)
   \<and> dec_nonneg (balance \<lparr>name = ''Bob'', balance = Fin 800 0, account_number = 1001\<rparr>)"
proof -
  have r: "objects (run initial_world
        [New (Str ''Alice'') (Num (Fin 1000 0)), New (Str ''Bob'') (Num (Fin 500 0)),
         Deposit 0 (Num (Fin 250 0)), Withdraw 0 (Num (Fin 150 0)),
         TransferTo 0 (Account 1) (Num (Fin 300 0)), Withdraw 0 (Num (Fin 2000 0)),
         Deposit 1 (Num (Fin (- 50) 0))])
     = [\<lparr>name = ''Alice'', balance = Fin 800 0, account_number = 1000\<rparr>,
        \<lparr>name = ''Bob'', balance = Fin 800 0, account_number = 1001\<rparr>]"
    by (simp add: run_def initial_world_def BankAccount_init_def strip_def is_space_def
        transfer_to_def deposit_def withdraw_def dec_lt_def dec_le_def dec_gt_def dec_sub_def
        dec_fix_def Let_def ndigits.simps prec_def Etop_def Etiny_def Emax_def Emin_def)
  have i: "BankAccount_init 1000 (Str ''Alice'') (Num (Fin 1000 0))
     = (Inr \<lparr>name = ''Alice'', balance = Fin 1000 0, account_number = 1000\<rparr>, 1001)"
    by (simp add: BankAccount_init_def strip_def is_space_def dec_lt_def)
  from balance_never_negative
    [of 1000 "Str ''Alice''" "Num (Fin 1000 0)"
        "\<lparr>name = ''Alice'', balance = Fin 1000 0, account_number = 1000\<rparr>" 1001
        "[New (Str ''Alice'') (Num (Fin 1000 0)), New (Str ''Bob'') (Num (Fin 500 0)),
         Deposit 0 (Num (Fin 250 0)), Withdraw 0 (Num (Fin 150 0)),
         TransferTo 0 (Account 1) (Num (Fin 300 0)), Withdraw 0 (Num (Fin 2000 0)),
         Deposit 1 (Num (Fin (- 50) 0))]"] i r
  show ?thesis by simp
qed

lemma transfer_to_length:
  "length (snd (transfer_to objs s t amt)) = length objs"
proof (cases t)
  case NotAccount
  then show ?thesis by (simp add: transfer_to_def)
next
  case (Account r)
  then show ?thesis by (simp add: transfer_to_store split: sum.splits)
qed

lemma transfer_to_account_number:
  assumes "s < length objs" and "valid_target objs t" and "i < length objs"
  shows "account_number (snd (transfer_to objs s t amt) ! i) = account_number (objs ! i)"
proof (cases t)
  case NotAccount
  then show ?thesis by (simp add: transfer_to_def)
next
  case (Account r)
  with assms show ?thesis
    by (auto simp: transfer_to_store nth_list_update split: sum.splits)
qed

lemma exec_call_numbered:
  assumes "next_account_number w = 1000 + int (length (objects w))"
    and "\<forall>i < length (objects w). account_number (objects w ! i) = 1000 + int i"
  shows "next_account_number (exec_call w c) = 1000 + int (length (objects (exec_call w c)))
       \<and> (\<forall>i < length (objects (exec_call w c)).
             account_number (objects (exec_call w c) ! i) = 1000 + int i)"
proof (cases c)
  case (New n b)
  show ?thesis
  proof (cases "BankAccount_init (next_account_number w) n b")
    case (Pair res k)
    show ?thesis
    proof (cases res)
      case (Inl err)
      with Pair init_counter(1) have "k = next_account_number w" by simp
      with New Pair Inl assms show ?thesis by simp
    next
      case (Inr a)
      with Pair init_counter(2) have "account_number a = next_account_number w"
        and "k = next_account_number w + 1" by simp_all
      with New Pair Inr assms show ?thesis
        by (auto simp: nth_append)
    qed
  qed
next
  case (Deposit r amt)
  with assms show ?thesis by (auto simp: nth_list_update)
next
  case (Withdraw r amt)
  with assms show ?thesis by (auto simp: nth_list_update)
next
  case (TransferTo r t amt)
  with assms show ?thesis
    by (auto simp: transfer_to_length transfer_to_account_number)
qed

lemma run_numbered:
  "next_account_number w = 1000 + int (length (objects w)) \<Longrightarrow>
   \<forall>i < length (objects w). account_number (objects w ! i) = 1000 + int i \<Longrightarrow>
   next_account_number (run w calls) = 1000 + int (length (objects (run w calls)))
     \<and> (\<forall>i < length (objects (run w calls)).
           account_number (objects (run w calls) ! i) = 1000 + int i)"
proof (induction calls arbitrary: w)
  case Nil
  then show ?case by (simp add: run_def)
next
  case (Cons c calls)
  from exec_call_numbered [OF Cons.prems, of c]
  have "next_account_number (run (exec_call w c) calls)
          = 1000 + int (length (objects (run (exec_call w c) calls)))
      \<and> (\<forall>i < length (objects (run (exec_call w c) calls)).
           account_number (objects (run (exec_call w c) calls) ! i) = 1000 + int i)"
    by (intro Cons.IH) simp_all
  then show ?case by (simp add: run_def)
qed

text \<open>
  C6. The counter starts at 1000. A construction that raises leaves it as it is; one that
  returns gives the account the counter's value and adds 1. So of two constructions that
  return one after the other the second account has the larger number, and in every run of
  the process an account constructed later has a strictly larger number than one
  constructed earlier, whatever calls or failed constructions come between.
\<close>

theorem account_numbers_increase:
  "next_account_number initial_world = 1000
   \<and> (BankAccount_init k n b = (Inl err, k') \<longrightarrow> k' = k)
   \<and> (BankAccount_init k n b = (Inr a, k') \<longrightarrow> account_number a = k \<and> k' = k + 1)
   \<and> (BankAccount_init k n1 b1 = (Inr a1, k1) \<and> BankAccount_init k1 n2 b2 = (Inr a2, k2)
        \<longrightarrow> account_number a1 < account_number a2)
   \<and> (\<forall>i j. i < j \<and> j < length (objects (run initial_world calls))
        \<longrightarrow> account_number (objects (run initial_world calls) ! i)
            < account_number (objects (run initial_world calls) ! j))"
proof (intro conjI impI allI)
  show "next_account_number initial_world = 1000" by (simp add: initial_world_def)
next
  assume "BankAccount_init k n b = (Inl err, k')"
  then show "k' = k" by (rule init_counter(1))
next
  assume h: "BankAccount_init k n b = (Inr a, k')"
  from init_counter(2) [OF h] show "account_number a = k" "k' = k + 1" by simp_all
next
  assume h: "BankAccount_init k n1 b1 = (Inr a1, k1) \<and> BankAccount_init k1 n2 b2 = (Inr a2, k2)"
  then have h1: "BankAccount_init k n1 b1 = (Inr a1, k1)"
    and h2: "BankAccount_init k1 n2 b2 = (Inr a2, k2)" by simp_all
  from init_counter(2) [OF h1] init_counter(2) [OF h2]
  show "account_number a1 < account_number a2" by simp
next
  fix i j assume ij: "i < j \<and> j < length (objects (run initial_world calls))"
  have "next_account_number initial_world = 1000 + int (length (objects initial_world))"
    and "\<forall>i < length (objects initial_world). account_number (objects initial_world ! i) = 1000 + int i"
    by (simp_all add: initial_world_def)
  from run_numbered [OF this, of calls] ij
  show "account_number (objects (run initial_world calls) ! i)
          < account_number (objects (run initial_world calls) ! j)"
    by simp
qed

theorem account_numbers_increase_witness:
  "BankAccount_init 1000 (Str []) (Num (Fin 100 0)) = (Inl ValueError, 1000)
   \<and> BankAccount_init 1000 (Str ''Person 1'') (Num (Fin 100 0))
       = (Inr \<lparr>name = ''Person 1'', balance = Fin 100 0, account_number = 1000\<rparr>, 1001)
   \<and> BankAccount_init 1001 (Str ''Person 2'') (Num (Fin 200 0))
       = (Inr \<lparr>name = ''Person 2'', balance = Fin 200 0, account_number = 1001\<rparr>, 1002)
   \<and> account_number \<lparr>name = ''Person 1'', balance = Fin 100 0, account_number = 1000\<rparr>
       < account_number \<lparr>name = ''Person 2'', balance = Fin 200 0, account_number = 1001\<rparr>
   \<and> map account_number (objects (run initial_world
        [New (Str ''Person 1'') (Num (Fin 100 0)), New (Str ''   '') (Num (Fin 100 0)),
         New (Str ''John Doe'') (Num (Fin (- 100) 0)), New (Str ''John Doe'') Invalid,
         New (Str ''Person 2'') (Num (Fin 200 0))]))
     = [1000, 1001]
   \<and> (0::nat) < 1
   \<and> account_number (objects (run initial_world
        [New (Str ''Person 1'') (Num (Fin 100 0)), New (Str ''   '') (Num (Fin 100 0)),
         New (Str ''John Doe'') (Num (Fin (- 100) 0)), New (Str ''John Doe'') Invalid,
         New (Str ''Person 2'') (Num (Fin 200 0))]) ! 0)
     < account_number (objects (run initial_world
        [New (Str ''Person 1'') (Num (Fin 100 0)), New (Str ''   '') (Num (Fin 100 0)),
         New (Str ''John Doe'') (Num (Fin (- 100) 0)), New (Str ''John Doe'') Invalid,
         New (Str ''Person 2'') (Num (Fin 200 0))]) ! 1)"
proof -
  let ?calls = "[New (Str ''Person 1'') (Num (Fin 100 0)), New (Str ''   '') (Num (Fin 100 0)),
         New (Str ''John Doe'') (Num (Fin (- 100) 0)), New (Str ''John Doe'') Invalid,
         New (Str ''Person 2'') (Num (Fin 200 0))]"
  have e: "BankAccount_init 1000 (Str []) (Num (Fin 100 0)) = (Inl ValueError, 1000)"
    by (simp add: BankAccount_init_def strip_def)
  have i1: "BankAccount_init 1000 (Str ''Person 1'') (Num (Fin 100 0))
       = (Inr \<lparr>name = ''Person 1'', balance = Fin 100 0, account_number = 1000\<rparr>, 1001)"
    by (simp add: BankAccount_init_def strip_def is_space_def dec_lt_def)
  have i2: "BankAccount_init 1001 (Str ''Person 2'') (Num (Fin 200 0))
       = (Inr \<lparr>name = ''Person 2'', balance = Fin 200 0, account_number = 1001\<rparr>, 1002)"
    by (simp add: BankAccount_init_def strip_def is_space_def dec_lt_def)
  have r: "objects (run initial_world ?calls)
     = [\<lparr>name = ''Person 1'', balance = Fin 100 0, account_number = 1000\<rparr>,
        \<lparr>name = ''Person 2'', balance = Fin 200 0, account_number = 1001\<rparr>]"
    by (simp add: run_def initial_world_def BankAccount_init_def strip_def is_space_def
        dec_lt_def)
  from account_numbers_increase
    [of 1000 "Str []" "Num (Fin 100 0)" ValueError 1000
        "\<lparr>name = ''Person 1'', balance = Fin 100 0, account_number = 1000\<rparr>" 
        "Str ''Person 1''" "Num (Fin 100 0)"
        "\<lparr>name = ''Person 1'', balance = Fin 100 0, account_number = 1000\<rparr>" 1001
        "Str ''Person 2''" "Num (Fin 200 0)"
        "\<lparr>name = ''Person 2'', balance = Fin 200 0, account_number = 1001\<rparr>" 1002 ?calls]
    e i1 i2 r
  show ?thesis by simp
qed

section \<open>Properties of Array\<close>

lemma norm_index_in_range: "0 \<le> i \<Longrightarrow> i < int n \<Longrightarrow> norm_index n i = Some (nat i)"
  by (simp add: norm_index_def)

lemma shift_right_in_range:
  "0 \<le> stop \<Longrightarrow> stop \<le> i \<Longrightarrow> i < int (length xs) \<Longrightarrow>
   \<exists>ys. shift_right i stop xs = (None, ys) \<and> length ys = length xs \<and>
        (\<forall>j < length xs. ys ! j = (if nat stop < j \<and> j \<le> nat i then xs ! (j - 1) else xs ! j))"
proof (induction i stop xs rule: shift_right.induct)
  case (1 i stop xs)
  show ?case
  proof (cases "stop < i")
    case False
    with "1.prems" show ?thesis by (auto simp: shift_right.simps)
  next
    case True
    define v where "v = xs ! nat (i - 1)"
    define xs' where "xs' = xs[nat i := v]"
    from True "1.prems" have g: "list_getitem xs (i - 1) = Inr v"
      by (simp add: list_getitem_def norm_index_in_range v_def)
    from True "1.prems" have s: "list_setitem xs i v = Inr xs'"
      by (simp add: list_setitem_def norm_index_in_range xs'_def)
    from True "1.prems" have "0 \<le> stop" "stop \<le> i - 1" "i - 1 < int (length xs')"
      by (simp_all add: xs'_def)
    from "1.IH" [OF True g s this] obtain ys where
      ys: "shift_right (i - 1) stop xs' = (None, ys)" "length ys = length xs'"
        "\<forall>j < length xs'. ys ! j = (if nat stop < j \<and> j \<le> nat (i - 1) then xs' ! (j - 1) else xs' ! j)"
      by blast
    from True g s ys(1) have "shift_right i stop xs = (None, ys)"
      by (subst shift_right.simps) simp
    moreover from ys(2) have "length ys = length xs" by (simp add: xs'_def)
    moreover have "\<forall>j < length xs. ys ! j = (if nat stop < j \<and> j \<le> nat i then xs ! (j - 1) else xs ! j)"
    proof (intro allI impI)
      fix j assume j: "j < length xs"
      with ys(3) have e: "ys ! j = (if nat stop < j \<and> j \<le> nat (i - 1) then xs' ! (j - 1) else xs' ! j)"
        by (simp add: xs'_def)
      show "ys ! j = (if nat stop < j \<and> j \<le> nat i then xs ! (j - 1) else xs ! j)"
      proof (cases "j = nat i")
        case True
        with e j \<open>stop < i\<close> "1.prems" show ?thesis
          by (auto simp: xs'_def v_def nat_diff_distrib)
      next
        case False
        with e j \<open>stop < i\<close> "1.prems" show ?thesis
          by (auto simp: xs'_def nth_list_update)
      qed
    qed
    ultimately show ?thesis by blast
  qed
qed


lemma shifted_list:
  assumes sl: "s \<le> l" and ll: "l < length xs" and len: "length ys = length xs"
    and ys: "\<forall>j < length xs. ys ! j = (if s < j \<and> j \<le> l then xs ! (j - 1) else xs ! j)"
  shows "ys[s := v] = take s xs @ v # take (l - s) (drop s xs) @ drop (Suc l) xs"
proof -
  define A where "A = take s xs"
  define B where "B = take (l - s) (drop s xs)"
  define C where "C = drop (Suc l) xs"
  have lA: "length A = s" and lB: "length B = l - s" and lC: "length C = length xs - Suc l"
    using sl ll by (simp_all add: A_def B_def C_def)
  have "ys[s := v] = A @ v # B @ C"
  proof (rule nth_equalityI)
    show "length (ys[s := v]) = length (A @ v # B @ C)"
      using sl ll len lA lB lC by simp
  next
    fix j assume "j < length (ys[s := v])"
    then have j: "j < length xs" using len by simp
    consider "j < s" | "j = s" | "s < j" "j \<le> l" | "l < j" by linarith
    then show "ys[s := v] ! j = (A @ v # B @ C) ! j"
    proof cases
      case 1
      with ys j sl have "ys[s := v] ! j = xs ! j" by simp
      moreover from 1 lA have "(A @ v # B @ C) ! j = A ! j" by (simp add: nth_append)
      moreover from 1 have "A ! j = xs ! j" by (simp add: A_def)
      ultimately show ?thesis by simp
    next
      case 2
      with j len lA show ?thesis by (simp add: nth_append)
    next
      case 3
      with ys j have "ys[s := v] ! j = xs ! (j - 1)" by simp
      moreover from 3 lA have "(A @ v # B @ C) ! j = (B @ C) ! (j - Suc s)"
        by (simp add: nth_append nth_Cons')
      moreover from 3 have "j - Suc s < l - s" by arith
      with lB have "(B @ C) ! (j - Suc s) = B ! (j - Suc s)"
        by (simp add: nth_append)
      moreover from 3 ll have "B ! (j - Suc s) = xs ! (j - 1)"
        by (simp add: B_def)
      ultimately show ?thesis by simp
    next
      case 4
      with ys j sl have "ys[s := v] ! j = xs ! j" by simp
      moreover from 4 sl lA have "(A @ v # B @ C) ! j = (B @ C) ! (j - Suc s)"
        by (simp add: nth_append nth_Cons')
      moreover from 4 sl have "\<not> j - Suc s < l - s" and "j - Suc s - (l - s) = j - Suc l" by arith+
      with lB have "(B @ C) ! (j - Suc s) = C ! (j - Suc l)"
        by (simp add: nth_append)
      moreover from 4 j have "C ! (j - Suc l) = xs ! j"
        by (simp add: C_def)
      ultimately show ?thesis by simp
    qed
  qed
  then show ?thesis by (simp add: A_def B_def C_def)
qed

lemma insert_at_index_in_range:
  assumes wf: "int (length (items self)) = size_arr self"
    and nonfull: "get_length self < size_arr self"
    and idx: "0 \<le> index" "index \<le> get_length self"
  shows "insert_at_index self index element =
     (None, self\<lparr>items := take (nat index) (items self) @
                element # take (nat (get_length self) - nat index) (drop (nat index) (items self)) @
                drop (Suc (nat (get_length self))) (items self)\<rparr>)"
proof -
  from wf nonfull have l: "get_length self < int (length (items self))" by simp
  from shift_right_in_range [OF idx l] obtain ys where
    ys: "shift_right (get_length self) index (items self) = (None, ys)"
      "length ys = length (items self)"
      "\<forall>j < length (items self). ys ! j =
          (if nat index < j \<and> j \<le> nat (get_length self) then items self ! (j - 1) else items self ! j)"
    by blast
  from idx l ys(2) have set: "list_setitem ys index element = Inr (ys[nat index := element])"
    by (simp add: list_setitem_def norm_index_in_range)
  from idx l have "nat index \<le> nat (get_length self)" "nat (get_length self) < length (items self)"
    by simp_all
  from shifted_list [OF this ys(2) ys(3)]
  have "ys[nat index := element] = take (nat index) (items self) @
          element # take (nat (get_length self) - nat index) (drop (nat index) (items self)) @
          drop (Suc (nat (get_length self))) (items self)" .
  with nonfull idx ys(1) set show ?thesis
    by (simp add: insert_at_index_def)
qed



lemma list_index_None: "list_index xs v = None \<longleftrightarrow> v \<notin> set xs"
  by (induction xs) auto

lemma list_index_Some:
  "list_index xs v = Some i \<Longrightarrow> i < length xs \<and> xs ! i = v \<and> (\<forall>j < i. xs ! j \<noteq> v)"
proof (induction xs arbitrary: i)
  case Nil
  then show ?case by simp
next
  case (Cons x xs)
  show ?case
  proof (cases "x = v")
    case True
    with Cons.prems show ?thesis by simp
  next
    case False
    with Cons.prems obtain k where k: "list_index xs v = Some k" "i = Suc k" by auto
    from Cons.IH [OF k(1)] False k(2) show ?thesis
      by (auto simp: nth_Cons')
  qed
qed

text \<open>
  C5 (amended). For a positive size and a fill value that is neither \<open>None\<close> nor a list,
  the constructor sets every slot to that value and \<open>get_length\<close> equals the size. With
  the fill \<open>None\<close> every slot is empty and \<open>get_length\<close> is 0.
\<close>

theorem array_init_fill_value:
  "0 < c \<longrightarrow>
     Array_init (IntArg c) (PyObj (v :: 'a)) = Inr \<lparr>size_arr = c, items = replicate (nat c) (PyObj v)\<rparr>
   \<and> get_length \<lparr>size_arr = c, items = replicate (nat c) (PyObj v)\<rparr> = c
   \<and> Array_init (IntArg c) (PyNone :: 'a pyval)
       = Inr \<lparr>size_arr = c, items = replicate (nat c) PyNone\<rparr>
   \<and> get_length \<lparr>size_arr = c, items = replicate (nat c) (PyNone :: 'a pyval)\<rparr> = 0"
  by (simp add: Array_init_def get_length_def)

theorem array_init_fill_value_witness:
  "(0::int) < 3
   \<and> Array_init (IntArg 3) (PyObj (0::nat)) = Inr \<lparr>size_arr = 3, items = [PyObj 0, PyObj 0, PyObj 0]\<rparr>
   \<and> get_length \<lparr>size_arr = 3, items = [PyObj (0::nat), PyObj 0, PyObj 0]\<rparr> = 3"
  using array_init_fill_value [of 3 "0::nat"]
  by (simp add: numeral_3_eq_3)

text \<open>
  C5 as stated fails for the fill value \<open>None\<close>, which is a single non-list value equal to
  the empty marker: \<open>Array(3, None)\<close> has three slots and \<open>get_length() == 0\<close>.
\<close>

theorem array_init_fill_none_counterexample:
  "Array_init (IntArg 3) (PyNone :: nat pyval) = Inr \<lparr>size_arr = 3, items = [PyNone, PyNone, PyNone]\<rparr>
   \<and> get_length \<lparr>size_arr = 3, items = [PyNone, PyNone, PyNone :: nat pyval]\<rparr> \<noteq> 3"
  by (simp add: Array_init_def get_length_def numeral_3_eq_3)

text \<open>
  C7. When \<open>get_length\<close> equals the size, \<open>insert_first\<close>, \<open>insert_at_index\<close>,
  \<open>insert_after_index\<close> and \<open>insert_before_index\<close> raise ArrayError whatever the index,
  and the array is unchanged.
\<close>

theorem insert_full_raises:
  "get_length self = size_arr self \<longrightarrow>
     insert_first self element = (Some ArrayError, self)
   \<and> insert_at_index self index element = (Some ArrayError, self)
   \<and> insert_after_index self index element = (Some ArrayError, self)
   \<and> insert_before_index self index element = (Some ArrayError, self)"
  by (simp add: insert_first_def insert_at_index_def insert_after_index_def insert_before_index_def)

theorem insert_full_raises_witness:
  "get_length \<lparr>size_arr = 2, items = [PyObj (1::nat), PyObj 2]\<rparr> = 2
   \<and> insert_first \<lparr>size_arr = 2, items = [PyObj (1::nat), PyObj 2]\<rparr> (PyObj 0)
       = (Some ArrayError, \<lparr>size_arr = 2, items = [PyObj 1, PyObj 2]\<rparr>)
   \<and> insert_at_index \<lparr>size_arr = 2, items = [PyObj (1::nat), PyObj 2]\<rparr> 7 (PyObj 0)
       = (Some ArrayError, \<lparr>size_arr = 2, items = [PyObj 1, PyObj 2]\<rparr>)
   \<and> insert_after_index \<lparr>size_arr = 2, items = [PyObj (1::nat), PyObj 2]\<rparr> 7 (PyObj 0)
       = (Some ArrayError, \<lparr>size_arr = 2, items = [PyObj 1, PyObj 2]\<rparr>)
   \<and> insert_before_index \<lparr>size_arr = 2, items = [PyObj (1::nat), PyObj 2]\<rparr> 7 (PyObj 0)
       = (Some ArrayError, \<lparr>size_arr = 2, items = [PyObj 1, PyObj 2]\<rparr>)"
  using insert_full_raises [of "\<lparr>size_arr = 2, items = [PyObj (1::nat), PyObj 2]\<rparr>" "PyObj 0" 7]
  by (simp add: get_length_def)

lemma stored_after_write:
  assumes "L < length xs" and "xs ! L = PyNone" and "e \<noteq> PyNone"
  shows "mset (filter (\<lambda>item. item \<noteq> PyNone) (xs[L := e]))
           = add_mset e (mset (filter (\<lambda>item. item \<noteq> PyNone) xs))"
proof -
  define A where "A = take L xs"
  define B where "B = drop (Suc L) xs"
  from assms(1,2) have x: "xs = A @ PyNone # B"
    unfolding A_def B_def by (metis id_take_nth_drop)
  from assms(1) have u: "xs[L := e] = A @ e # B"
    unfolding A_def B_def by (rule upd_conv_take_nth_drop)
  have "mset (filter (\<lambda>item. item \<noteq> PyNone) (A @ e # B))
          = add_mset e (mset (filter (\<lambda>item. item \<noteq> PyNone) (A @ PyNone # B)))"
    using assms(3) by simp
  with x u show ?thesis by simp
qed

text \<open>
  C8 (amended). On an array that is not full (its list as long as its size),
  \<open>insert_at_index\<close> raises IndexError exactly when the index is negative or greater than
  \<open>get_length\<close>. The index equal to \<open>get_length\<close> is accepted: nothing is shifted and the
  element is written at that position. Where that slot is empty and the element is not
  \<open>None\<close>, this is an append: the stored values are the old ones and the new element,
  and \<open>get_length\<close> grows by one.
\<close>

theorem insert_at_index_range:
  assumes "int (length (items self)) = size_arr self"
    and "get_length self < size_arr self"
  shows "(fst (insert_at_index self index element) = Some IndexError
            \<longleftrightarrow> index < 0 \<or> get_length self < index)
       \<and> (index = get_length self \<longrightarrow>
            insert_at_index self index element
              = (None, self\<lparr>items := (items self)[nat index := element]\<rparr>))
       \<and> (index = get_length self \<and> items self ! nat index = PyNone \<and> element \<noteq> PyNone \<longrightarrow>
            mset (filter (\<lambda>item. item \<noteq> PyNone) (items (snd (insert_at_index self index element))))
              = add_mset element (mset (filter (\<lambda>item. item \<noteq> PyNone) (items self)))
          \<and> get_length (snd (insert_at_index self index element)) = get_length self + 1)"
proof -
  have nn: "0 \<le> get_length self" by (simp add: get_length_def)
  with assms have l: "nat (get_length self) < length (items self)" by linarith
  have iff: "fst (insert_at_index self index element) = Some IndexError
          \<longleftrightarrow> index < 0 \<or> get_length self < index"
  proof (cases "index < 0 \<or> get_length self < index")
    case True
    with assms show ?thesis by (auto simp: insert_at_index_def)
  next
    case False
    then have "0 \<le> index" "index \<le> get_length self" by simp_all
    from insert_at_index_in_range [OF assms this] False show ?thesis by simp
  qed
  have bnd: "insert_at_index self index element
          = (None, self\<lparr>items := (items self)[nat index := element]\<rparr>)"
    if eq: "index = get_length self"
  proof -
    from eq nn have "0 \<le> index" "index \<le> get_length self" by simp_all
    from insert_at_index_in_range [OF assms this, of element] eq l
    show ?thesis by (simp add: upd_conv_take_nth_drop)
  qed
  have app: "mset (filter (\<lambda>item. item \<noteq> PyNone) (items (snd (insert_at_index self index element))))
              = add_mset element (mset (filter (\<lambda>item. item \<noteq> PyNone) (items self)))
          \<and> get_length (snd (insert_at_index self index element)) = get_length self + 1"
    if eq: "index = get_length self" and emp: "items self ! nat index = PyNone"
      and ne: "element \<noteq> PyNone"
  proof -
    from eq l have "nat index < length (items self)" by simp
    from this emp ne
    have m: "mset (filter (\<lambda>item. item \<noteq> PyNone) ((items self)[nat index := element]))
              = add_mset element (mset (filter (\<lambda>item. item \<noteq> PyNone) (items self)))"
      by (rule stored_after_write)
    then have "size (mset (filter (\<lambda>item. item \<noteq> PyNone) ((items self)[nat index := element])))
              = size (add_mset element (mset (filter (\<lambda>item. item \<noteq> PyNone) (items self))))"
      by (rule arg_cong)
    then have "length (filter (\<lambda>item. item \<noteq> PyNone) ((items self)[nat index := element]))
              = Suc (length (filter (\<lambda>item. item \<noteq> PyNone) (items self)))"
      by (simp only: size_mset size_add_mset)
    with m bnd [OF eq] show ?thesis by (simp add: get_length_def)
  qed
  from iff bnd app show ?thesis by blast
qed

theorem insert_at_index_range_witness:
  "int (length (items \<lparr>size_arr = 5, items = [PyObj (1::nat), PyObj 2, PyNone, PyNone, PyNone]\<rparr>))
     = size_arr \<lparr>size_arr = 5, items = [PyObj (1::nat), PyObj 2, PyNone, PyNone, PyNone]\<rparr>
   \<and> get_length \<lparr>size_arr = 5, items = [PyObj (1::nat), PyObj 2, PyNone, PyNone, PyNone]\<rparr>
       < size_arr \<lparr>size_arr = 5, items = [PyObj (1::nat), PyObj 2, PyNone, PyNone, PyNone]\<rparr>
   \<and> get_length \<lparr>size_arr = 5, items = [PyObj (1::nat), PyObj 2, PyNone, PyNone, PyNone]\<rparr> = 2
   \<and> items \<lparr>size_arr = 5, items = [PyObj (1::nat), PyObj 2, PyNone, PyNone, PyNone]\<rparr> ! nat 2 = PyNone
   \<and> PyObj (3::nat) \<noteq> PyNone
   \<and> insert_at_index \<lparr>size_arr = 5, items = [PyObj (1::nat), PyObj 2, PyNone, PyNone, PyNone]\<rparr> 2 (PyObj 3)
       = (None, \<lparr>size_arr = 5, items = [PyObj 1, PyObj 2, PyObj 3, PyNone, PyNone]\<rparr>)
   \<and> get_length \<lparr>size_arr = 5, items = [PyObj (1::nat), PyObj 2, PyObj 3, PyNone, PyNone]\<rparr> = 3
   \<and> fst (insert_at_index \<lparr>size_arr = 5, items = [PyObj (1::nat), PyObj 2, PyNone, PyNone, PyNone]\<rparr> 3 (PyObj 3))
       = Some IndexError
   \<and> fst (insert_at_index \<lparr>size_arr = 5, items = [PyObj (1::nat), PyObj 2, PyNone, PyNone, PyNone]\<rparr> (- 1) (PyObj 3))
       = Some IndexError"
  using insert_at_index_range
    [of "\<lparr>size_arr = 5, items = [PyObj (1::nat), PyObj 2, PyNone, PyNone, PyNone]\<rparr>" 2 "PyObj 3"]
  by (simp add: get_length_def insert_at_index_def)

text \<open>
  C8 as stated fails on an array with a hole: with slots \<open>[1, None, 3, None]\<close>,
  \<open>get_length()\<close> is 2 and \<open>insert_at_index(2, 9)\<close> writes over the stored 3. The result is
  \<open>[1, None, 9, None]\<close>: 3 is gone and \<open>get_length()\<close> is still 2, so nothing was
  appended.
\<close>

theorem insert_at_index_hole_counterexample:
  "int (length (items \<lparr>size_arr = 4, items = [PyObj (1::nat), PyNone, PyObj 3, PyNone]\<rparr>))
     = size_arr \<lparr>size_arr = 4, items = [PyObj (1::nat), PyNone, PyObj 3, PyNone]\<rparr>
   \<and> get_length \<lparr>size_arr = 4, items = [PyObj (1::nat), PyNone, PyObj 3, PyNone]\<rparr> = 2
   \<and> insert_at_index \<lparr>size_arr = 4, items = [PyObj (1::nat), PyNone, PyObj 3, PyNone]\<rparr> 2 (PyObj 9)
       = (None, \<lparr>size_arr = 4, items = [PyObj 1, PyNone, PyObj 9, PyNone]\<rparr>)
   \<and> get_length \<lparr>size_arr = 4, items = [PyObj (1::nat), PyNone, PyObj 9, PyNone]\<rparr> = 2
   \<and> PyObj (3::nat) \<notin> set [PyObj 1, PyNone, PyObj 9, PyNone]"
  by (simp add: insert_at_index_def get_length_def shift_right.simps list_setitem_def
      norm_index_def)

text \<open>
  C9. \<open>delete\<close> finds the first slot equal to the value (the value may be \<open>None\<close>). If
  there is one, that slot alone is set to \<open>None\<close> and the result is True; if there is none,
  the result is False and the array is unchanged.
\<close>

theorem delete_first_match:
  "(element \<in> set (items self) \<longrightarrow>
      (\<exists>i < length (items self). items self ! i = element
          \<and> (\<forall>j < i. items self ! j \<noteq> element)
          \<and> delete self element = (True, self\<lparr>items := (items self)[i := PyNone]\<rparr>)))
   \<and> (element \<notin> set (items self) \<longrightarrow> delete self element = (False, self))"
proof (intro conjI impI)
  assume "element \<in> set (items self)"
  then obtain i where i: "list_index (items self) element = Some i"
    using list_index_None [of "items self" element] by (cases "list_index (items self) element") auto
  from list_index_Some [OF i] i
  show "\<exists>i < length (items self). items self ! i = element
          \<and> (\<forall>j < i. items self ! j \<noteq> element)
          \<and> delete self element = (True, self\<lparr>items := (items self)[i := PyNone]\<rparr>)"
    by (auto simp: delete_def)
next
  assume "element \<notin> set (items self)"
  then have "list_index (items self) element = None" by (simp add: list_index_None)
  then show "delete self element = (False, self)"
    by (simp add: delete_def)
qed

theorem delete_first_match_witness:
  "PyObj (2::nat) \<in> set (items \<lparr>size_arr = 5, items = [PyObj 1, PyObj 2, PyObj 3, PyObj 2, PyNone]\<rparr>)
   \<and> delete \<lparr>size_arr = 5, items = [PyObj (1::nat), PyObj 2, PyObj 3, PyObj 2, PyNone]\<rparr> (PyObj 2)
       = (True, \<lparr>size_arr = 5, items = [PyObj 1, PyNone, PyObj 3, PyObj 2, PyNone]\<rparr>)
   \<and> PyObj (99::nat) \<notin> set (items \<lparr>size_arr = 5, items = [PyObj 1, PyObj 2, PyObj 3, PyObj 2, PyNone]\<rparr>)
   \<and> delete \<lparr>size_arr = 5, items = [PyObj (1::nat), PyObj 2, PyObj 3, PyObj 2, PyNone]\<rparr> (PyObj 99)
       = (False, \<lparr>size_arr = 5, items = [PyObj 1, PyObj 2, PyObj 3, PyObj 2, PyNone]\<rparr>)"
  using delete_first_match
    [of "PyObj (99::nat)" "\<lparr>size_arr = 5, items = [PyObj 1, PyObj 2, PyObj 3, PyObj 2, PyNone]\<rparr>"]
  by (simp add: delete_def)



end
